theory Spec2Isabelle
  imports Main "HOL-Library.AList"
begin

section \<open>Coordinates\<close>

text \<open>
  The coordinate variants of the data model. \<open>SizedAxis\<close> is the axis the older tests
  call \<open>NamedAxis\<close>. Label values are integers here (the tests use \<open>np.arange\<close>).
\<close>

datatype coordinate =
    SizedAxis string nat
  | LabeledAxis string "int list"
  | DummyAxis string nat
  | CartesianProduct "coordinate list"
  | SelectedAxis coordinate nat
  | Scalar

text \<open>
  Modelled from the spec: \<open>Coordinate.axes\<close> (the coordinate classes are not among the
  sources). The axes of a product are the flattened leaf axes of its components, \<open>Scalar\<close>
  has none, every other variant is one axis.
\<close>

fun axes :: "coordinate \<Rightarrow> coordinate list" where
  "axes (CartesianProduct cs) = concat (map axes cs)"
| "axes Scalar = []"
| "axes (SizedAxis n s) = [SizedAxis n s]"
| "axes (LabeledAxis n ls) = [LabeledAxis n ls]"
| "axes (DummyAxis n s) = [DummyAxis n s]"
| "axes (SelectedAxis p i) = [SelectedAxis p i]"

definition ndim :: "coordinate \<Rightarrow> nat" where
  "ndim c = length (axes c)"

subsection \<open>consolidate_coordinates\<close>

text \<open>
  Modelled from the spec: \<open>consolidate_coordinates\<close> (module \<open>coordinate_systems\<close> is
  not among the sources, only its test is). The scan goes left to right; where the list
  continues with \<open>SelectedAxis p 0, ..., SelectedAxis p (n - 1)\<close> for the \<open>n\<close> axes of
  \<open>p\<close>, the indices in increasing order and without a gap, the run is replaced by \<open>p\<close>;
  every other entry is kept as it is.
\<close>

definition complete_run :: "coordinate \<Rightarrow> coordinate list" where
  "complete_run p = map (SelectedAxis p) [0..<ndim p]"

function consolidate_coordinates :: "coordinate list \<Rightarrow> coordinate list" where
  "consolidate_coordinates [] = []"
| "consolidate_coordinates (c # cs) =
     (case c of
        SelectedAxis p i \<Rightarrow>
          if 0 < ndim p \<and> take (ndim p) (c # cs) = complete_run p
          then p # consolidate_coordinates (drop (ndim p) (c # cs))
          else c # consolidate_coordinates cs
      | _ \<Rightarrow> c # consolidate_coordinates cs)"
  by pat_completeness auto
termination
  by (relation "measure length") auto

fun continues_run :: "coordinate \<Rightarrow> bool" where
  "continues_run (SelectedAxis p (Suc i)) = True"
| "continues_run c = False"

declare consolidate_coordinates.simps(2) [simp del]

text \<open>The product of the tests, \<open>PRODUCT_XY\<close>.\<close>

definition PRODUCT_XY :: coordinate where
  "PRODUCT_XY = CartesianProduct [SizedAxis ''x'' 2, SizedAxis ''y'' 3]"

subsection \<open>compose_coordinates\<close>

text \<open>
  Modelled from the spec: \<open>compose_coordinates\<close> (module \<open>coordinate_systems\<close> is not
  among the sources, only its test is). Step 1 unravels one level of product arguments
  and step 2 replaces a \<open>SelectedAxis\<close> over a one-axis parent by the parent. Then the
  selections of a parent that stand together again are merged back into the parent
  (\<open>consolidate_coordinates\<close>): the overview of the spec says so of the coordinate
  algebra, and \<open>test_compose_coordinates\<close> expects it
  (\<open>selected_axes_compoents_merge\<close>, \<open>consolidate_over_parts\<close>). Step 3 returns a
  single element as it is and wraps anything else in a product, whose construction
  unravels one level of nested products, as the data model says.
\<close>

fun unravel :: "coordinate \<Rightarrow> coordinate list" where
  "unravel (CartesianProduct cs) = cs"
| "unravel c = [c]"

fun simplify_selected :: "coordinate \<Rightarrow> coordinate" where
  "simplify_selected (SelectedAxis p i) = (if ndim p = 1 then p else SelectedAxis p i)"
| "simplify_selected c = c"

definition cartesian_product :: "coordinate list \<Rightarrow> coordinate" where
  "cartesian_product cs = CartesianProduct (concat (map unravel cs))"

fun wrap_product :: "coordinate list \<Rightarrow> coordinate" where
  "wrap_product [c] = c"
| "wrap_product cs = cartesian_product cs"

definition compose_coordinates :: "coordinate list \<Rightarrow> coordinate" where
  "compose_coordinates coords =
     wrap_product (consolidate_coordinates
                     (map simplify_selected (concat (map unravel coords))))"

subsection \<open>Coordinates on which composition is associative\<close>





definition normal :: "coordinate list \<Rightarrow> coordinate list" where
  "normal cs = concat (map unravel (consolidate_coordinates cs))"

definition run_at :: "coordinate \<Rightarrow> coordinate list \<Rightarrow> bool" where
  "run_at p cs = (0 < ndim p \<and> take (ndim p) cs = complete_run p)"


section \<open>Filters and predicates\<close>

text \<open>
  A Python class is its name with the names of its proper ancestors (its method
  resolution order without itself). With multiple inheritance a class has ancestors that
  are unrelated to each other.
\<close>

datatype pytype = PyType (type_name: string) (type_ancestors: "string list")

definition issubclass :: "pytype \<Rightarrow> pytype \<Rightarrow> bool" where
  "issubclass t1 t2 = (t1 = t2 \<or> type_name t2 \<in> set (type_ancestors t1))"

text \<open>
  The predicates of \<open>nnx.filterlib\<close>. \<open>Not\<close>, \<open>Any\<close> and \<open>All\<close> carry a suffix because
  HOL has constants of these names. \<open>PathContains\<close> stands for the predicates that the
  disjointness check does not decompose.
\<close>

datatype predicate =
    Nothing
  | Everything
  | Not_p predicate
  | Any_p "predicate list"
  | All_p "predicate list"
  | OfType pytype
  | WithTag string
  | PathContains string

text \<open>
  What \<open>nnx.filterlib.to_predicate\<close> accepts: a string is a tag, a class a type filter,
  \<open>True\<close> and \<open>...\<close> match everything, \<open>False\<close> and \<open>None\<close> nothing, a tuple is the
  disjunction of its members, and a predicate is returned as it is.
\<close>

datatype filter =
    FStr string
  | FType pytype
  | FBool bool
  | FEllipsis
  | FNone
  | FTuple "filter list"
  | FPred predicate

fun to_predicate :: "filter \<Rightarrow> predicate" where
  "to_predicate (FStr s) = WithTag s"
| "to_predicate (FType t) = OfType t"
| "to_predicate (FBool b) = (if b then Everything else Nothing)"
| "to_predicate FEllipsis = Everything"
| "to_predicate FNone = Nothing"
| "to_predicate (FTuple fs) = Any_p (map to_predicate fs)"
| "to_predicate (FPred p) = p"

text \<open>
  A state variable, as a predicate sees it: its class, its tag when it has one, and the
  flattened leaves of its value. A predicate is called on the path and the variable.
\<close>

record 'v variable =
  var_type :: pytype
  var_tag :: "string option"
  var_value :: "'v list"

fun matches :: "predicate \<Rightarrow> string list \<Rightarrow> ('v, 'x) variable_scheme \<Rightarrow> bool" where
  "matches Nothing path x = False"
| "matches Everything path x = True"
| "matches (Not_p p) path x = (\<not> matches p path x)"
| "matches (Any_p ps) path x = (\<exists>p \<in> set ps. matches p path x)"
| "matches (All_p ps) path x = (\<forall>p \<in> set ps. matches p path x)"
| "matches (OfType t) path x = issubclass (var_type x) t"
| "matches (WithTag tag) path x = (var_tag x = Some tag)"
| "matches (PathContains key) path x = (key \<in> set path)"

subsection \<open>The conservative disjointness check\<close>

text \<open>
  \<open>_are_certainly_disjoint_predicates\<close> and \<open>_are_certainly_disjoint_filters\<close>. The
  recursive calls of the first go through the second on sub-predicates, where
  \<open>to_predicate\<close> is the identity; \<open>disjoint_either_direction\<close> is the second function on
  predicates. A \<open>Not\<close> whose operand differs from \<open>p2\<close>, and an \<open>OfType\<close> or \<open>WithTag\<close>
  whose inner test fails, fall through to the final \<open>return False\<close>.
\<close>

lemma size_member_less: "p \<in> set ps \<Longrightarrow> size p < Suc (size_list size ps)"
  by (induction ps) auto

function are_certainly_disjoint_predicates :: "predicate \<Rightarrow> predicate \<Rightarrow> bool"
  and disjoint_either_direction :: "predicate \<Rightarrow> predicate \<Rightarrow> bool" where
  "are_certainly_disjoint_predicates p1 p2 =
     (case p1 of
        Nothing \<Rightarrow> True
      | Everything \<Rightarrow> (p2 = Nothing)
      | Not_p q \<Rightarrow> (q = p2)
      | Any_p ps \<Rightarrow> (\<forall>sub_p \<in> set ps. disjoint_either_direction sub_p p2)
      | All_p ps \<Rightarrow> (\<exists>sub_p \<in> set ps. disjoint_either_direction sub_p p2)
      | OfType t1 \<Rightarrow>
          (case p2 of
             OfType t2 \<Rightarrow> \<not> issubclass t1 t2 \<and> \<not> issubclass t2 t1
           | _ \<Rightarrow> False)
      | WithTag tag1 \<Rightarrow>
          (case p2 of WithTag tag2 \<Rightarrow> tag1 \<noteq> tag2 | _ \<Rightarrow> False)
      | PathContains key \<Rightarrow> False)"
| "disjoint_either_direction p1 p2 =
     (are_certainly_disjoint_predicates p1 p2 \<or> are_certainly_disjoint_predicates p2 p1)"
  by pat_completeness auto

termination
  apply (relation "measure (\<lambda>x. case x of
            Inl (p1, p2) \<Rightarrow> 2 * (size p1 + size p2)
          | Inr (p1, p2) \<Rightarrow> 2 * (size p1 + size p2) + 1)")
    apply (auto dest: size_member_less)
  done

declare are_certainly_disjoint_predicates.simps [simp del]
declare disjoint_either_direction.simps [simp del]

definition are_certainly_disjoint_filters :: "filter \<Rightarrow> filter \<Rightarrow> bool" where
  "are_certainly_disjoint_filters filter_a filter_b =
     (let p1 = to_predicate filter_a;
          p2 = to_predicate filter_b;
          ab_direction_disjoint = are_certainly_disjoint_predicates p1 p2;
          ba_direction_disjoint = are_certainly_disjoint_predicates p2 p1
      in ab_direction_disjoint \<or> ba_direction_disjoint)"

text \<open>
  The classes that the \<open>OfType\<close> predicates of a predicate name, and what single
  inheritance means for a variable and these classes: two of them that the class of the
  variable both descends from are related to each other.
\<close>

fun of_types :: "predicate \<Rightarrow> pytype list" where
  "of_types (OfType t) = [t]"
| "of_types (Not_p p) = of_types p"
| "of_types (Any_p ps) = concat (map of_types ps)"
| "of_types (All_p ps) = concat (map of_types ps)"
| "of_types p = []"

definition related_types :: "('v, 'x) variable_scheme \<Rightarrow> pytype list \<Rightarrow> bool" where
  "related_types x ts =
     (\<forall>t1 \<in> set ts. \<forall>t2 \<in> set ts.
        issubclass (var_type x) t1 \<and> issubclass (var_type x) t2
          \<longrightarrow> issubclass t1 t2 \<or> issubclass t2 t1)"

section \<open>Merging vectorization specs\<close>

text \<open>
  A vectorization spec is a Python dict from filters to coordinates: an association list
  in insertion order. \<open>AList.update\<close> is the dict assignment (an existing key keeps its
  place, a new key goes last). The wildcard key is \<open>...\<close>, the filter \<open>FEllipsis\<close>.
\<close>

type_synonym vectorization_spec = "(filter \<times> coordinate) list"

text \<open>
  The exceptions of \<open>module_utils\<close>, by Python class. \<open>LibraryError\<close> is whatever a
  library function that the model takes as a parameter raises.
\<close>

datatype error =
    ValueError_overlapping_filters filter filter
  | ValueError_not_a_field
  | ValueError_axis_not_present
  | TypeError_reduce_of_empty_iterable
  | StopIteration
  | LibraryError string

fun is_ValueError :: "error \<Rightarrow> bool" where
  "is_ValueError (ValueError_overlapping_filters k1 k2) = True"
| "is_ValueError ValueError_not_a_field = True"
| "is_ValueError ValueError_axis_not_present = True"
| "is_ValueError e = False"

definition dict_keys :: "('k \<times> 'v) list \<Rightarrow> 'k list" where
  "dict_keys d = remdups (map fst d)"

definition dict_pop :: "'k \<Rightarrow> 'v \<Rightarrow> ('k \<times> 'v) list \<Rightarrow> 'v \<times> ('k \<times> 'v) list" where
  "dict_pop k dflt d =
     (case map_of d k of
        Some v \<Rightarrow> (v, AList.delete k d)
      | None \<Rightarrow> (dflt, d))"

definition dict_update_all :: "('k \<times> 'v) list \<Rightarrow> ('k \<times> 'v) list \<Rightarrow> ('k \<times> 'v) list" where
  "dict_update_all d other = foldl (\<lambda>acc (k, v). AList.update k v acc) d other"

text \<open>
  The key sets of \<open>merge_vectorized_axes\<close>, after the wildcard has been popped from both
  copies. Python does not fix the order in which a set is iterated: it depends on the
  hashes of the elements. A set is its elements without duplicates, and the parameter
  \<open>set_iteration\<close> lists them in the order of the iteration. \<open>set_iteration_order\<close>
  says that it lists the elements it is given, as many as there are; nothing else is
  assumed of it. \<open>List.product\<close> pairs two iterations as \<open>itertools.product\<close> does.
\<close>

definition set_iteration_order :: "('a list \<Rightarrow> 'a list) \<Rightarrow> bool" where
  "set_iteration_order set_iteration =
     (\<forall>ks. set (set_iteration ks) = set ks \<and> length (set_iteration ks) = length ks)"

definition diff_head_keys ::
  "(filter list \<Rightarrow> filter list) \<Rightarrow> vectorization_spec \<Rightarrow> vectorization_spec \<Rightarrow> filter list" where
  "diff_head_keys set_iteration vectorized_axes_head vectorized_axes_tail =
     (let head_keys = dict_keys (snd (dict_pop FEllipsis Scalar vectorized_axes_head));
          tail_keys = dict_keys (snd (dict_pop FEllipsis Scalar vectorized_axes_tail))
      in set_iteration (filter (\<lambda>k. k \<notin> set tail_keys) head_keys))"

definition diff_tail_keys ::
  "(filter list \<Rightarrow> filter list) \<Rightarrow> vectorization_spec \<Rightarrow> vectorization_spec \<Rightarrow> filter list" where
  "diff_tail_keys set_iteration vectorized_axes_head vectorized_axes_tail =
     (let head_keys = dict_keys (snd (dict_pop FEllipsis Scalar vectorized_axes_head));
          tail_keys = dict_keys (snd (dict_pop FEllipsis Scalar vectorized_axes_tail))
      in set_iteration (filter (\<lambda>k. k \<notin> set head_keys) tail_keys))"

definition common_keys ::
  "(filter list \<Rightarrow> filter list) \<Rightarrow> vectorization_spec \<Rightarrow> vectorization_spec \<Rightarrow> filter list" where
  "common_keys set_iteration vectorized_axes_head vectorized_axes_tail =
     (let head_keys = dict_keys (snd (dict_pop FEllipsis Scalar vectorized_axes_head));
          tail_keys = dict_keys (snd (dict_pop FEllipsis Scalar vectorized_axes_tail))
      in set_iteration (filter (\<lambda>k. k \<in> set tail_keys) head_keys))"

definition unresolved_pair :: "filter \<times> filter \<Rightarrow> bool" where
  "unresolved_pair ks = (\<not> are_certainly_disjoint_filters (fst ks) (snd ks))"

definition merge_vectorized_axes ::
  "(filter list \<Rightarrow> filter list) \<Rightarrow> vectorization_spec \<Rightarrow> vectorization_spec
     \<Rightarrow> error + vectorization_spec" where
  "merge_vectorized_axes set_iteration vectorized_axes_head vectorized_axes_tail =
     (let (head_ellipsis_axes, head) = dict_pop FEllipsis Scalar vectorized_axes_head;
          (tail_ellipsis_axes, tail) = dict_pop FEllipsis Scalar vectorized_axes_tail;
          merged = map (\<lambda>k. (k, compose_coordinates [the (map_of head k), the (map_of tail k)]))
                     (common_keys set_iteration vectorized_axes_head vectorized_axes_tail);
          diff_head = map (\<lambda>k. (k, compose_coordinates [the (map_of head k), tail_ellipsis_axes]))
                        (diff_head_keys set_iteration vectorized_axes_head vectorized_axes_tail);
          diff_tail = map (\<lambda>k. (k, compose_coordinates [head_ellipsis_axes, the (map_of tail k)]))
                        (diff_tail_keys set_iteration vectorized_axes_head vectorized_axes_tail);
          pairs = List.product (diff_head_keys set_iteration vectorized_axes_head vectorized_axes_tail)
                               (diff_tail_keys set_iteration vectorized_axes_head vectorized_axes_tail)
      in if \<not> list_all (\<lambda>ks. \<not> unresolved_pair ks) pairs
         then (case find unresolved_pair pairs of
                 Some potentially_overlapping \<Rightarrow>
                   Inl (ValueError_overlapping_filters (fst potentially_overlapping)
                                                       (snd potentially_overlapping))
               | None \<Rightarrow> Inl StopIteration)
         else
           (let merged = dict_update_all (dict_update_all merged diff_head) diff_tail;
                combined_ellipsis =
                  compose_coordinates [head_ellipsis_axes, tail_ellipsis_axes]
            in if FEllipsis \<in> set (map fst vectorized_axes_head)
                  \<or> FEllipsis \<in> set (map fst vectorized_axes_tail)
               then Inr (AList.update FEllipsis combined_ellipsis merged)
               else Inr merged))"

definition wildcard_coordinate :: "vectorization_spec \<Rightarrow> coordinate" where
  "wildcard_coordinate d = (case map_of d FEllipsis of Some c \<Rightarrow> c | None \<Rightarrow> Scalar)"

section \<open>Module state\<close>

text \<open>
  The state of a module: its variables by path, in traversal order. \<open>nnx.state\<close> selects
  the variables a filter matches, \<open>nnx.update\<close> writes the variables of a state back
  under their paths. A leaf of a variable's value is a \<open>Field\<close> or something else (a raw
  array).
\<close>

record 'd field =
  field_coordinate :: coordinate
  field_data :: 'd

datatype 'd leaf = IsField "'d field" | NotField 'd

type_synonym 'v module_state = "(string list \<times> 'v variable) list"

definition nnx_state :: "'v module_state \<Rightarrow> filter \<Rightarrow> 'v module_state" where
  "nnx_state module k = filter (\<lambda>(path, x). matches (to_predicate k) path x) module"

definition nnx_update :: "'v module_state \<Rightarrow> 'v module_state \<Rightarrow> 'v module_state" where
  "nnx_update module new_state =
     map (\<lambda>(path, x). case map_of new_state path of
                          Some x' \<Rightarrow> (path, x')
                        | None \<Rightarrow> (path, x)) module"

text \<open>\<open>jax.tree.map\<close> over the leaves of a state: left to right, the first raise ends it.\<close>

fun map_result :: "('a \<Rightarrow> error + 'b) \<Rightarrow> 'a list \<Rightarrow> error + 'b list" where
  "map_result f [] = Inr []"
| "map_result f (x # xs) =
     (case f x of
        Inl e \<Rightarrow> Inl e
      | Inr y \<Rightarrow> (case map_result f xs of Inl e \<Rightarrow> Inl e | Inr ys \<Rightarrow> Inr (y # ys)))"

definition tree_map :: "('v \<Rightarrow> error + 'v) \<Rightarrow> 'v module_state \<Rightarrow> error + 'v module_state" where
  "tree_map f st =
     map_result (\<lambda>(path, x). case map_result f (var_value x) of
                                Inl e \<Rightarrow> Inl e
                              | Inr vs \<Rightarrow> Inr (path, x\<lparr>var_value := vs\<rparr>)) st"

subsection \<open>vectorize_module\<close>

text \<open>
  \<open>Field.broadcast_like\<close> belongs to the coordax library and is a parameter. The module
  is mutated in place, so the model returns the module as the call leaves it together
  with the exception, if one was raised.
\<close>

definition broadcast ::
  "('d field \<Rightarrow> coordinate \<Rightarrow> error + 'd field) \<Rightarrow> coordinate \<Rightarrow> 'd leaf \<Rightarrow> error + 'd leaf" where
  "broadcast broadcast_like coord x =
     (case x of
        NotField d \<Rightarrow> Inl ValueError_not_a_field
      | IsField f \<Rightarrow>
          (case broadcast_like f (compose_coordinates [coord, field_coordinate f]) of
             Inl e \<Rightarrow> Inl e
           | Inr f' \<Rightarrow> Inr (IsField f')))"

fun vectorize_module ::
  "('d field \<Rightarrow> coordinate \<Rightarrow> error + 'd field) \<Rightarrow> 'd leaf module_state
     \<Rightarrow> vectorization_spec \<Rightarrow> 'd leaf module_state \<times> error option" where
  "vectorize_module broadcast_like module [] = (module, None)"
| "vectorize_module broadcast_like module ((k, coord) # vectorization_specs) =
     (case tree_map (broadcast broadcast_like coord) (nnx_state module k) of
        Inl e \<Rightarrow> (module, Some e)
      | Inr k_state \<Rightarrow>
          vectorize_module broadcast_like (nnx_update module k_state) vectorization_specs)"

subsection \<open>tag_module_state and untag_module_state\<close>

text \<open>
  \<open>functools.reduce(operator.or_, sets)\<close> without an initial value: a \<open>TypeError\<close> on an
  empty iterable, the union of the sets otherwise.
\<close>

fun reduce_or :: "'a set list \<Rightarrow> error + 'a set" where
  "reduce_or [] = Inl TypeError_reduce_of_empty_iterable"
| "reduce_or (s # ss) = Inr (foldl (\<union>) s ss)"

text \<open>
  The loop of both functions over the items of \<open>vectorized_axes\<close>; \<open>retag\<close> is \<open>cx.tag\<close>
  or \<open>cx.untag\<close> on a state, a parameter.
\<close>

fun retag_loop ::
  "('v module_state \<Rightarrow> coordinate \<Rightarrow> error + 'v module_state) \<Rightarrow> 'v module_state
     \<Rightarrow> coordinate \<Rightarrow> vectorization_spec \<Rightarrow> 'v module_state \<times> error option" where
  "retag_loop retag module coordinate [] = (module, None)"
| "retag_loop retag module coordinate ((state_filter, coord) # vectorized_axes) =
     (let components = filter (\<lambda>ax. ax \<in> set (axes coord)) (axes coordinate)
      in if components \<noteq> []
         then (case retag (nnx_state module state_filter) (compose_coordinates components) of
                 Inl e \<Rightarrow> (module, Some e)
               | Inr new_state \<Rightarrow>
                   retag_loop retag (nnx_update module new_state) coordinate vectorized_axes)
         else retag_loop retag module coordinate vectorized_axes)"

definition untag_module_state ::
  "('v module_state \<Rightarrow> coordinate \<Rightarrow> error + 'v module_state) \<Rightarrow> 'v module_state
     \<Rightarrow> coordinate \<Rightarrow> vectorization_spec \<Rightarrow> 'v module_state \<times> error option" where
  "untag_module_state cx_untag module coordinate vectorized_axes =
     (case reduce_or (map (\<lambda>v. set (axes v)) (map snd vectorized_axes)) of
        Inl e \<Rightarrow> (module, Some e)
      | Inr vectorized_axes_set \<Rightarrow>
          if \<exists>ax \<in> set (axes coordinate). ax \<notin> vectorized_axes_set
          then (module, Some ValueError_axis_not_present)
          else retag_loop cx_untag module coordinate vectorized_axes)"

definition tag_module_state ::
  "('v module_state \<Rightarrow> coordinate \<Rightarrow> error + 'v module_state) \<Rightarrow> 'v module_state
     \<Rightarrow> coordinate \<Rightarrow> vectorization_spec \<Rightarrow> 'v module_state \<times> error option" where
  "tag_module_state cx_tag module coordinate vectorized_axes =
     (case reduce_or (map (\<lambda>v. set (axes v)) (map snd vectorized_axes)) of
        Inl e \<Rightarrow> (module, Some e)
      | Inr vectorized_axes_set \<Rightarrow>
          if \<exists>ax \<in> set (axes coordinate). ax \<notin> vectorized_axes_set
          then (module, Some ValueError_axis_not_present)
          else retag_loop cx_tag module coordinate vectorized_axes)"

text \<open>
  Two values for the examples on \<open>vectorize_module\<close>: a \<open>broadcast_like\<close> that always
  succeeds and gives the field its target coordinate, and a module whose first variable
  holds a \<open>Field\<close> and whose second holds a raw array.
\<close>

definition retarget_field :: "'d field \<Rightarrow> coordinate \<Rightarrow> error + 'd field" where
  "retarget_field f target = Inr (f\<lparr>field_coordinate := target\<rparr>)"

definition two_variable_module :: "nat leaf module_state" where
  "two_variable_module =
     [([''a''], \<lparr>var_type = PyType ''Param'' [''Variable'', ''object''], var_tag = Some ''a'',
                 var_value = [IsField \<lparr>field_coordinate = SizedAxis ''x'' 2, field_data = 0\<rparr>]\<rparr>),
      ([''b''], \<lparr>var_type = PyType ''Param'' [''Variable'', ''object''], var_tag = Some ''b'',
                 var_value = [NotField 1]\<rparr>)]"

section \<open>Named arrays\<close>

text \<open>
  Modelled from the spec: \<open>NamedArray\<close> and its flatten and rebuild (module
  \<open>named_axes\<close> is not among the sources, only its test is). A raw array is its shape
  with its elements in row-major order; a dim is a name or \<open>None\<close> for a positional
  axis. Flattening yields the data as the only leaf and the dims with the named shape as
  metadata. Rebuilding compares the rank of the new leaf with the number of dims: equal,
  the named sizes are validated again; greater, positional axes are inserted in front;
  smaller, the front-most dims are dropped, which fails when one of them is named.
\<close>

record ndarray =
  shape :: "nat list"
  elems :: "int list"

record named_array =
  data :: ndarray
  dims :: "string option list"

datatype named_axes_error =
    NamedShapeMismatch "(string \<times> nat) list" "(string \<times> nat) list"
  | CannotTrimNamedDimensions "string option list"

definition named_shape_of :: "string option list \<Rightarrow> nat list \<Rightarrow> (string \<times> nat) list" where
  "named_shape_of ds sh =
     concat (map (\<lambda>(d, s). case d of Some n \<Rightarrow> [(n, s)] | None \<Rightarrow> []) (zip ds sh))"

definition named_shape :: "named_array \<Rightarrow> (string \<times> nat) list" where
  "named_shape a = named_shape_of (dims a) (shape (data a))"

definition tree_flatten ::
  "named_array \<Rightarrow> ndarray \<times> (string option list \<times> (string \<times> nat) list)" where
  "tree_flatten a = (data a, (dims a, named_shape a))"

definition tree_unflatten ::
  "string option list \<times> (string \<times> nat) list \<Rightarrow> ndarray \<Rightarrow> named_axes_error + named_array" where
  "tree_unflatten aux leaf =
     (let old_dims = fst aux;
          old_named_shape = snd aux;
          rank = length (shape leaf)
      in if rank = length old_dims
         then (let new_named_shape = named_shape_of old_dims (shape leaf)
               in if new_named_shape \<noteq> old_named_shape
                  then Inl (NamedShapeMismatch new_named_shape old_named_shape)
                  else Inr \<lparr>data = leaf, dims = old_dims\<rparr>)
         else if rank > length old_dims
         then Inr \<lparr>data = leaf, dims = replicate (rank - length old_dims) None @ old_dims\<rparr>
         else (let trimmed = length old_dims - rank
               in if list_ex (\<lambda>d. d \<noteq> None) (take trimmed old_dims)
                  then Inl (CannotTrimNamedDimensions (take trimmed old_dims))
                  else Inr \<lparr>data = leaf, dims = drop trimmed old_dims\<rparr>))"

section \<open>Properties of the vectorization merge\<close>

lemma dict_pop_fst: "fst (dict_pop FEllipsis Scalar d) = wildcard_coordinate d"
  by (simp add: dict_pop_def wildcard_coordinate_def split: option.splits)

lemma dict_pop_map_of: "map_of (snd (dict_pop k dflt d)) = (map_of d)(k := None)"
  by (auto simp: dict_pop_def AList.delete_conv' split: option.splits)

lemma set_dict_keys: "set (dict_keys d) = dom (map_of d)"
  by (simp add: dict_keys_def dom_map_of_conv_image_fst)

lemma set_diff_head_keys:
  "set_iteration_order si \<Longrightarrow>
   set (diff_head_keys si h t) = (dom (map_of h) - {FEllipsis}) - dom (map_of t)"
  by (auto simp: diff_head_keys_def set_dict_keys dict_pop_map_of Let_def set_iteration_order_def)

lemma set_diff_tail_keys:
  "set_iteration_order si \<Longrightarrow>
   set (diff_tail_keys si h t) = (dom (map_of t) - {FEllipsis}) - dom (map_of h)"
  by (auto simp: diff_tail_keys_def set_dict_keys dict_pop_map_of Let_def set_iteration_order_def)

lemma merge_error:
  assumes "find unresolved_pair (List.product (diff_head_keys si h t) (diff_tail_keys si h t)) = Some ks"
  shows "merge_vectorized_axes si h t = Inl (ValueError_overlapping_filters (fst ks) (snd ks))"
proof -
  have "\<not> list_all (\<lambda>ks. \<not> unresolved_pair ks)
            (List.product (diff_head_keys si h t) (diff_tail_keys si h t))"
    using assms unfolding list_all_iff find_Some_iff by (metis nth_mem)
  then show ?thesis
    using assms by (simp add: merge_vectorized_axes_def Let_def split: prod.splits)
qed

lemma merge_no_error:
  assumes "find unresolved_pair (List.product (diff_head_keys si h t) (diff_tail_keys si h t)) = None"
  shows "\<exists>m. merge_vectorized_axes si h t = Inr m"
proof -
  have "list_all (\<lambda>ks. \<not> unresolved_pair ks)
            (List.product (diff_head_keys si h t) (diff_tail_keys si h t))"
    using assms unfolding list_all_iff find_None_iff by blast
  then show ?thesis
    by (simp add: merge_vectorized_axes_def Let_def split: prod.splits)
qed

text \<open>
  Claim C5. In whatever order the key sets are iterated, \<open>merge_vectorized_axes\<close> raises
  the \<open>ValueError\<close> naming the first unresolved pair whenever some head-only key and some
  tail-only key (keys other than the wildcard, which is popped before the key sets are
  formed) are not proved disjoint by the conservative check: the named pair is the first
  one, in the order in which \<open>itertools.product\<close> goes through the two iterations, that
  the check cannot prove disjoint. Conversely, if every such pair is proved disjoint, the
  call returns a merged spec. The check being conservative, the error is also raised for
  keys that no variable can match together (see the instance that follows the theorem).
\<close>

theorem merge_vectorized_axes_overlap_error:
  assumes ord: "set_iteration_order si"
    and pairs: "pairs = List.product (diff_head_keys si h t) (diff_tail_keys si h t)"
  shows "((\<exists>k1 k2. k1 \<noteq> FEllipsis \<and> k2 \<noteq> FEllipsis
              \<and> map_of h k1 \<noteq> None \<and> map_of t k1 = None
              \<and> map_of t k2 \<noteq> None \<and> map_of h k2 = None
              \<and> \<not> are_certainly_disjoint_filters k1 k2)
          \<longrightarrow> (\<exists>i < length pairs.
                 merge_vectorized_axes si h t
                   = Inl (ValueError_overlapping_filters (fst (pairs ! i)) (snd (pairs ! i)))
               \<and> \<not> are_certainly_disjoint_filters (fst (pairs ! i)) (snd (pairs ! i))
               \<and> (\<forall>j < i. are_certainly_disjoint_filters (fst (pairs ! j)) (snd (pairs ! j)))))
       \<and> ((\<forall>k1 k2. k1 \<noteq> FEllipsis \<and> k2 \<noteq> FEllipsis
              \<and> map_of h k1 \<noteq> None \<and> map_of t k1 = None
              \<and> map_of t k2 \<noteq> None \<and> map_of h k2 = None
              \<longrightarrow> are_certainly_disjoint_filters k1 k2)
          \<longrightarrow> (\<exists>m. merge_vectorized_axes si h t = Inr m))"
proof (intro conjI impI)
  assume "\<exists>k1 k2. k1 \<noteq> FEllipsis \<and> k2 \<noteq> FEllipsis
              \<and> map_of h k1 \<noteq> None \<and> map_of t k1 = None
              \<and> map_of t k2 \<noteq> None \<and> map_of h k2 = None
              \<and> \<not> are_certainly_disjoint_filters k1 k2"
  then obtain k1 k2 where k: "k1 \<in> set (diff_head_keys si h t)" "k2 \<in> set (diff_tail_keys si h t)"
      "\<not> are_certainly_disjoint_filters k1 k2"
    by (auto simp: set_diff_head_keys [OF ord] set_diff_tail_keys [OF ord])
  then have "(k1, k2) \<in> set pairs" "unresolved_pair (k1, k2)"
    by (auto simp: pairs unresolved_pair_def)
  then have "find unresolved_pair pairs \<noteq> None"
    by (auto simp: find_None_iff)
  then obtain ks where f: "find unresolved_pair pairs = Some ks" by auto
  then obtain i where i: "i < length pairs" "unresolved_pair (pairs ! i)" "ks = pairs ! i"
      "\<forall>j < i. \<not> unresolved_pair (pairs ! j)"
    by (auto simp: find_Some_iff)
  have "merge_vectorized_axes si h t = Inl (ValueError_overlapping_filters (fst ks) (snd ks))"
    using merge_error [of si h t ks] f by (simp add: pairs)
  with i show "\<exists>i < length pairs.
                 merge_vectorized_axes si h t
                   = Inl (ValueError_overlapping_filters (fst (pairs ! i)) (snd (pairs ! i)))
               \<and> \<not> are_certainly_disjoint_filters (fst (pairs ! i)) (snd (pairs ! i))
               \<and> (\<forall>j < i. are_certainly_disjoint_filters (fst (pairs ! j)) (snd (pairs ! j)))"
    by (auto simp: unresolved_pair_def)
next
  assume a: "\<forall>k1 k2. k1 \<noteq> FEllipsis \<and> k2 \<noteq> FEllipsis
              \<and> map_of h k1 \<noteq> None \<and> map_of t k1 = None
              \<and> map_of t k2 \<noteq> None \<and> map_of h k2 = None
              \<longrightarrow> are_certainly_disjoint_filters k1 k2"
  have "are_certainly_disjoint_filters k1 k2"
    if "k1 \<in> set (diff_head_keys si h t)" "k2 \<in> set (diff_tail_keys si h t)" for k1 k2
  proof -
    have "k1 \<noteq> FEllipsis \<and> k2 \<noteq> FEllipsis
              \<and> map_of h k1 \<noteq> None \<and> map_of t k1 = None
              \<and> map_of t k2 \<noteq> None \<and> map_of h k2 = None"
      using that by (auto simp: set_diff_head_keys [OF ord] set_diff_tail_keys [OF ord])
    with a show ?thesis by blast
  qed
  then have "find unresolved_pair (List.product (diff_head_keys si h t) (diff_tail_keys si h t)) = None"
    by (auto simp: find_None_iff unresolved_pair_def)
  then show "\<exists>m. merge_vectorized_axes si h t = Inr m" by (rule merge_no_error)
qed

theorem merge_vectorized_axes_overlap_error_witness:
  "merge_vectorized_axes rev
       [(FPred (Not_p (Any_p [WithTag ''a'', WithTag ''b''])), SizedAxis ''x'' 2)]
       [(FStr ''a'', SizedAxis ''y'' 3)]
     = Inl (ValueError_overlapping_filters
              (FPred (Not_p (Any_p [WithTag ''a'', WithTag ''b''])))
              (FStr ''a''))
   \<and> (\<forall>path (x :: nat variable).
         \<not> (matches (to_predicate (FPred (Not_p (Any_p [WithTag ''a'', WithTag ''b''])))) path x
            \<and> matches (to_predicate (FStr ''a'')) path x))
   \<and> (\<exists>m. merge_vectorized_axes rev [(FStr ''a'', SizedAxis ''x'' 2)] [(FStr ''b'', SizedAxis ''y'' 3)]
            = Inr m)"
proof -
  let ?k1 = "FPred (Not_p (Any_p [WithTag ''a'', WithTag ''b'']))"
  let ?h = "[(?k1, SizedAxis ''x'' 2)]" and ?t = "[(FStr ''a'', SizedAxis ''y'' 3)]"
  have ord: "set_iteration_order (rev :: filter list \<Rightarrow> filter list)"
    by (simp add: set_iteration_order_def)
  have dh: "diff_head_keys rev ?h ?t = [?k1]" by code_simp
  have dt: "diff_tail_keys rev ?h ?t = [FStr ''a'']" by code_simp
  have nd: "\<not> are_certainly_disjoint_filters ?k1 (FStr ''a'')" by code_simp
  have pairs: "[(?k1, FStr ''a'')] = List.product (diff_head_keys rev ?h ?t) (diff_tail_keys rev ?h ?t)"
    by (simp add: dh dt)
  have ex: "\<exists>k1 k2. k1 \<noteq> FEllipsis \<and> k2 \<noteq> FEllipsis
              \<and> map_of ?h k1 \<noteq> None \<and> map_of ?t k1 = None
              \<and> map_of ?t k2 \<noteq> None \<and> map_of ?h k2 = None
              \<and> \<not> are_certainly_disjoint_filters k1 k2"
    using nd by (intro exI [of _ ?k1] exI [of _ "FStr ''a''"]) simp
  have 1: "merge_vectorized_axes rev ?h ?t
     = Inl (ValueError_overlapping_filters ?k1 (FStr ''a''))"
    using merge_vectorized_axes_overlap_error [OF ord pairs] ex by auto
  have 2: "\<forall>path (x :: nat variable).
         \<not> (matches (to_predicate ?k1) path x \<and> matches (to_predicate (FStr ''a'')) path x)"
    by auto
  let ?h2 = "[(FStr ''a'', SizedAxis ''x'' 2)]" and ?t2 = "[(FStr ''b'', SizedAxis ''y'' 3)]"
  have d: "are_certainly_disjoint_filters (FStr ''a'') (FStr ''b'')" by code_simp
  have all: "\<forall>k1 k2. k1 \<noteq> FEllipsis \<and> k2 \<noteq> FEllipsis
              \<and> map_of ?h2 k1 \<noteq> None \<and> map_of ?t2 k1 = None
              \<and> map_of ?t2 k2 \<noteq> None \<and> map_of ?h2 k2 = None
              \<longrightarrow> are_certainly_disjoint_filters k1 k2"
    using d by (auto split: if_splits)
  have 3: "\<exists>m. merge_vectorized_axes rev ?h2 ?t2 = Inr m"
    using merge_vectorized_axes_overlap_error [OF ord refl, of ?h2 ?t2] all by blast
  from 1 2 3 show ?thesis by blast
qed

text \<open>
  Which pair the error names depends on the order of the iteration: with two unresolved
  pairs, the keys in dict order name one and the keys in reversed order the other.
\<close>

lemma merge_error_pair_depends_on_set_iteration:
  "merge_vectorized_axes (\<lambda>ks. ks)
       [(FStr ''a'', SizedAxis ''x'' 2), (FType (PyType ''Param'' [''object'']), SizedAxis ''y'' 3)]
       [(FPred (PathContains ''bias''), SizedAxis ''z'' 4)]
     = Inl (ValueError_overlapping_filters (FStr ''a'') (FPred (PathContains ''bias'')))"
  "merge_vectorized_axes rev
       [(FStr ''a'', SizedAxis ''x'' 2), (FType (PyType ''Param'' [''object'']), SizedAxis ''y'' 3)]
       [(FPred (PathContains ''bias''), SizedAxis ''z'' 4)]
     = Inl (ValueError_overlapping_filters (FType (PyType ''Param'' [''object'']))
                                           (FPred (PathContains ''bias'')))"
  by code_simp+

lemma map_of_dict_update_all:
  "map_of (dict_update_all d other) = map_of d ++ map_of (rev other)"
  unfolding dict_update_all_def
proof (induction other arbitrary: d)
  case Nil
  then show ?case by simp
next
  case (Cons kv other)
  obtain k v where kv: "kv = (k, v)" by (cases kv)
  have "map_of (foldl (\<lambda>acc (k, v). AList.update k v acc) d (kv # other))
        = map_of (AList.update k v d) ++ map_of (rev other)"
    using Cons.IH [of "AList.update k v d"] by (simp add: kv)
  also have "\<dots> = map_of d ++ map_of (rev (kv # other))"
    by (simp add: kv AList.update_conv' fun_eq_iff map_add_def split: option.splits)
  finally show ?case .
qed

lemma map_of_rev_keyed:
  "map_of (rev (map (\<lambda>k. (k, f k)) ks)) k = (if k \<in> set ks then Some (f k) else None)"
  by (simp add: rev_map map_of_map_restrict restrict_map_def)

lemma map_of_keyed:
  "map_of (map (\<lambda>k. (k, f k)) ks) k = (if k \<in> set ks then Some (f k) else None)"
  by (simp add: map_of_map_restrict restrict_map_def)

lemma set_common_keys:
  "set_iteration_order si \<Longrightarrow>
   set (common_keys si h t) = (dom (map_of h) \<inter> dom (map_of t)) - {FEllipsis}"
  by (auto simp: common_keys_def set_dict_keys dict_pop_map_of Let_def set_iteration_order_def)

lemma merge_lookup:
  assumes ord: "set_iteration_order si"
    and "merge_vectorized_axes si h t = Inr m"
  shows "map_of m k =
     (case (map_of h k, map_of t k) of
        (Some a, Some b) \<Rightarrow> Some (compose_coordinates [a, b])
      | (Some a, None) \<Rightarrow> Some (compose_coordinates [a, wildcard_coordinate t])
      | (None, Some b) \<Rightarrow> Some (compose_coordinates [wildcard_coordinate h, b])
      | (None, None) \<Rightarrow> None)"
proof -
  obtain he hd where ph: "dict_pop FEllipsis Scalar h = (he, hd)"
    by (cases "dict_pop FEllipsis Scalar h")
  obtain te tl where pt: "dict_pop FEllipsis Scalar t = (te, tl)"
    by (cases "dict_pop FEllipsis Scalar t")
  have he: "he = wildcard_coordinate h" using ph dict_pop_fst [of h] by simp
  have te: "te = wildcard_coordinate t" using pt dict_pop_fst [of t] by simp
  have hd: "map_of hd = (map_of h)(FEllipsis := None)"
    using ph dict_pop_map_of [of FEllipsis Scalar h] by simp
  have tl: "map_of tl = (map_of t)(FEllipsis := None)"
    using pt dict_pop_map_of [of FEllipsis Scalar t] by simp
  have dom_iff: "\<And>d :: vectorization_spec. (FEllipsis \<in> fst ` set d) = (map_of d FEllipsis \<noteq> None)"
    by (metis domIff dom_map_of_conv_image_fst)
  show ?thesis
    using assms(2)
    apply (simp add: merge_vectorized_axes_def ph pt Let_def split: if_splits option.splits)
     apply (auto simp: AList.update_conv' map_of_dict_update_all map_add_def map_of_rev_keyed
        map_of_keyed set_diff_head_keys [OF ord] set_diff_tail_keys [OF ord]
        set_common_keys [OF ord] he te hd tl dom_iff
        wildcard_coordinate_def
        split: option.splits if_splits)
    done
qed

text \<open>
  Claim C4. When \<open>merge_vectorized_axes\<close> succeeds, in whatever order the key sets are
  iterated, a key of both inputs maps to the composition of its head coordinate and its
  tail coordinate; a head-only key to its head coordinate composed with the wildcard
  coordinate of the tail (\<open>Scalar\<close> when the tail has no wildcard); a tail-only key to
  the wildcard coordinate of the head (\<open>Scalar\<close> when absent) composed before its tail
  coordinate; and the wildcard key is in the output iff it is in at least one input,
  mapped to the composition of the head wildcard and the tail wildcard.
\<close>

theorem merge_vectorized_axes_entries:
  assumes "set_iteration_order si"
    and "merge_vectorized_axes si h t = Inr m"
  shows "(\<forall>k a b. map_of h k = Some a \<and> map_of t k = Some b
            \<longrightarrow> map_of m k = Some (compose_coordinates [a, b]))
       \<and> (\<forall>k a. map_of h k = Some a \<and> map_of t k = None
            \<longrightarrow> map_of m k = Some (compose_coordinates [a, wildcard_coordinate t]))
       \<and> (\<forall>k b. map_of h k = None \<and> map_of t k = Some b
            \<longrightarrow> map_of m k = Some (compose_coordinates [wildcard_coordinate h, b]))
       \<and> ((map_of m FEllipsis \<noteq> None)
            = (map_of h FEllipsis \<noteq> None \<or> map_of t FEllipsis \<noteq> None))
       \<and> (map_of m FEllipsis \<noteq> None
            \<longrightarrow> map_of m FEllipsis
                = Some (compose_coordinates [wildcard_coordinate h, wildcard_coordinate t]))"
proof -
  note L = merge_lookup [OF assms]
  have 1: "\<forall>k a b. map_of h k = Some a \<and> map_of t k = Some b
            \<longrightarrow> map_of m k = Some (compose_coordinates [a, b])"
    by (simp add: L)
  have 2: "\<forall>k a. map_of h k = Some a \<and> map_of t k = None
            \<longrightarrow> map_of m k = Some (compose_coordinates [a, wildcard_coordinate t])"
    by (simp add: L)
  have 3: "\<forall>k b. map_of h k = None \<and> map_of t k = Some b
            \<longrightarrow> map_of m k = Some (compose_coordinates [wildcard_coordinate h, b])"
    by (simp add: L)
  have 4: "(map_of m FEllipsis \<noteq> None)
            = (map_of h FEllipsis \<noteq> None \<or> map_of t FEllipsis \<noteq> None)"
    by (simp add: L split: option.splits)
  have 5: "map_of m FEllipsis \<noteq> None
            \<longrightarrow> map_of m FEllipsis
                = Some (compose_coordinates [wildcard_coordinate h, wildcard_coordinate t])"
    by (simp add: L wildcard_coordinate_def split: option.splits)
  from 1 2 3 4 5 show ?thesis by blast
qed

theorem merge_vectorized_axes_entries_witness:
  "merge_vectorized_axes rev
       [(FStr ''a'', SizedAxis ''x'' 2), (FEllipsis, SizedAxis ''y'' 3)]
       [(FStr ''a'', SizedAxis ''z'' 4), (FStr ''b'', SizedAxis ''x'' 2)]
     = Inr [(FStr ''a'', CartesianProduct [SizedAxis ''x'' 2, SizedAxis ''z'' 4]),
            (FStr ''b'', CartesianProduct [SizedAxis ''y'' 3, SizedAxis ''x'' 2]),
            (FEllipsis, CartesianProduct [SizedAxis ''y'' 3, Scalar])]
   \<and> map_of [(FStr ''a'', CartesianProduct [SizedAxis ''x'' 2, SizedAxis ''z'' 4]),
             (FStr ''b'', CartesianProduct [SizedAxis ''y'' 3, SizedAxis ''x'' 2]),
             (FEllipsis, CartesianProduct [SizedAxis ''y'' 3, Scalar])] (FStr ''b'')
     = Some (compose_coordinates
               [wildcard_coordinate [(FStr ''a'', SizedAxis ''x'' 2), (FEllipsis, SizedAxis ''y'' 3)],
                SizedAxis ''x'' 2])"
proof -
  let ?h = "[(FStr ''a'', SizedAxis ''x'' 2), (FEllipsis, SizedAxis ''y'' 3)]"
  let ?t = "[(FStr ''a'', SizedAxis ''z'' 4), (FStr ''b'', SizedAxis ''x'' 2)]"
  let ?m = "[(FStr ''a'', CartesianProduct [SizedAxis ''x'' 2, SizedAxis ''z'' 4]),
            (FStr ''b'', CartesianProduct [SizedAxis ''y'' 3, SizedAxis ''x'' 2]),
            (FEllipsis, CartesianProduct [SizedAxis ''y'' 3, Scalar])]"
  have ord: "set_iteration_order (rev :: filter list \<Rightarrow> filter list)"
    by (simp add: set_iteration_order_def)
  have e: "merge_vectorized_axes rev ?h ?t = Inr ?m"
    by code_simp
  have "\<forall>k b. map_of ?h k = None \<and> map_of ?t k = Some b
            \<longrightarrow> map_of ?m k = Some (compose_coordinates [wildcard_coordinate ?h, b])"
    using merge_vectorized_axes_entries [OF ord e] by blast
  then have "map_of ?h (FStr ''b'') = None \<and> map_of ?t (FStr ''b'') = Some (SizedAxis ''x'' 2)
            \<longrightarrow> map_of ?m (FStr ''b'')
                = Some (compose_coordinates [wildcard_coordinate ?h, SizedAxis ''x'' 2])"
    by blast
  moreover have "map_of ?h (FStr ''b'') = None \<and> map_of ?t (FStr ''b'') = Some (SizedAxis ''x'' 2)"
    by simp
  ultimately have "map_of ?m (FStr ''b'')
                = Some (compose_coordinates [wildcard_coordinate ?h, SizedAxis ''x'' 2])"
    by blast
  with e show ?thesis by blast
qed

section \<open>Properties of the disjointness check\<close>

text \<open>
  The check is sound for a variable under single inheritance, that is when the classes
  named by the two filters that the class of the variable descends from are related to
  each other: every rule but the one on two \<open>OfType\<close> predicates is sound for every
  variable. The instance after the lemma is a variable of class \<open>Param\<close> and two
  filters that the check proves disjoint.
\<close>

lemma related_types_subset:
  "related_types x ts \<Longrightarrow> set ts' \<subseteq> set ts \<Longrightarrow> related_types x ts'"
  unfolding related_types_def by blast

lemma of_types_member:
  "p \<in> set ps \<Longrightarrow> set (of_types p) \<subseteq> set (concat (map of_types ps))"
  by auto

lemma disjoint_sound_related_aux:
  fixes x :: "('v, 'x) variable_scheme"
  shows "(related_types x (of_types p1 @ of_types p2)
            \<longrightarrow> are_certainly_disjoint_predicates p1 p2
            \<longrightarrow> \<not> (matches p1 path x \<and> matches p2 path x))"
    and "(related_types x (of_types q1 @ of_types q2)
            \<longrightarrow> disjoint_either_direction q1 q2
            \<longrightarrow> \<not> (matches q1 path x \<and> matches q2 path x))"
proof (induction p1 p2 and q1 q2
    rule: are_certainly_disjoint_predicates_disjoint_either_direction.induct)
  case (1 p1 p2)
  show ?case
  proof (intro impI)
    assume rel: "related_types x (of_types p1 @ of_types p2)"
      and d: "are_certainly_disjoint_predicates p1 p2"
    show "\<not> (matches p1 path x \<and> matches p2 path x)"
    proof (cases p1)
      case Nothing
      then show ?thesis by simp
    next
      case Everything
      with d show ?thesis by (auto simp: are_certainly_disjoint_predicates.simps)
    next
      case (Not_p q)
      with d show ?thesis by (auto simp: are_certainly_disjoint_predicates.simps)
    next
      case (Any_p ps)
      have sub: "related_types x (of_types s @ of_types p2)" if "s \<in> set ps" for s
      proof -
        have "set (of_types s @ of_types p2) \<subseteq> set (of_types p1 @ of_types p2)"
          using that Any_p by auto
        with rel show ?thesis by (rule related_types_subset)
      qed
      from d Any_p have "\<forall>s \<in> set ps. disjoint_either_direction s p2"
        by (simp add: are_certainly_disjoint_predicates.simps)
      with 1(1) [OF Any_p] sub Any_p show ?thesis by auto
    next
      case (All_p ps)
      have sub: "related_types x (of_types s @ of_types p2)" if "s \<in> set ps" for s
      proof -
        have "set (of_types s @ of_types p2) \<subseteq> set (of_types p1 @ of_types p2)"
          using that All_p by auto
        with rel show ?thesis by (rule related_types_subset)
      qed
      from d All_p have "\<exists>s \<in> set ps. disjoint_either_direction s p2"
        by (simp add: are_certainly_disjoint_predicates.simps)
      with 1(2) [OF All_p] sub All_p show ?thesis by auto
    next
      case (OfType t1)
      with d rel show ?thesis
        by (cases p2) (auto simp: are_certainly_disjoint_predicates.simps related_types_def)
    next
      case (WithTag tag1)
      with d show ?thesis
        by (cases p2) (auto simp: are_certainly_disjoint_predicates.simps)
    next
      case (PathContains key)
      with d show ?thesis by (simp add: are_certainly_disjoint_predicates.simps)
    qed
  qed
next
  case (2 p1 p2)
  have "related_types x (of_types p2 @ of_types p1)"
    if "related_types x (of_types p1 @ of_types p2)"
    using that by (rule related_types_subset) auto
  with 2 show ?case by (auto simp: disjoint_either_direction.simps)
qed

lemma disjoint_sound_single_inheritance:
  fixes x :: "('v, 'x) variable_scheme"
  assumes "related_types x (of_types (to_predicate f1) @ of_types (to_predicate f2))"
    and "are_certainly_disjoint_filters f1 f2"
  shows "\<not> (matches (to_predicate f1) path x \<and> matches (to_predicate f2) path x)"
proof -
  have "related_types x (of_types (to_predicate f2) @ of_types (to_predicate f1))"
    using assms(1) by (rule related_types_subset) auto
  with assms disjoint_sound_related_aux(1) [of x "to_predicate f1" "to_predicate f2" path]
    disjoint_sound_related_aux(1) [of x "to_predicate f2" "to_predicate f1" path]
  show ?thesis
    unfolding are_certainly_disjoint_filters_def Let_def by blast
qed

lemma disjoint_sound_single_inheritance_instance:
  "related_types
     \<lparr>var_type = PyType ''Param'' [''Variable'', ''object''], var_tag = None, var_value = [0::nat]\<rparr>
     (of_types (to_predicate (FType (PyType ''Param'' [''Variable'', ''object'']))) @
      of_types (to_predicate (FPred (All_p [OfType (PyType ''Variable'' [''object'']),
                                            OfType (PyType ''BatchStat'' [''Variable'', ''object''])]))))"
  "are_certainly_disjoint_filters
     (FType (PyType ''Param'' [''Variable'', ''object'']))
     (FPred (All_p [OfType (PyType ''Variable'' [''object'']),
                    OfType (PyType ''BatchStat'' [''Variable'', ''object''])]))"
  by (simp_all add: related_types_def issubclass_def are_certainly_disjoint_filters_def
      are_certainly_disjoint_predicates.simps disjoint_either_direction.simps)

text \<open>
  Claim C2. The claim is that filters which the check reports as disjoint are matched
  together by no variable. With multiple inheritance the rule on \<open>OfType\<close> pairs reports
  two classes \<open>A\<close> and \<open>B\<close>, neither a subclass of the other, as disjoint, while a
  variable of a class \<open>C(A, B)\<close> is matched by both filters.
\<close>

theorem disjoint_check_false_positive:
  "are_certainly_disjoint_filters (FType (PyType ''A'' [''object'']))
                                  (FType (PyType ''B'' [''object'']))
   \<and> matches (to_predicate (FType (PyType ''A'' [''object''])))
        [''layer'', ''w'']
        \<lparr>var_type = PyType ''C'' [''A'', ''B'', ''object''], var_tag = None, var_value = [0::nat]\<rparr>
   \<and> matches (to_predicate (FType (PyType ''B'' [''object''])))
        [''layer'', ''w'']
        \<lparr>var_type = PyType ''C'' [''A'', ''B'', ''object''], var_tag = None, var_value = [0::nat]\<rparr>"
  by (simp add: are_certainly_disjoint_filters_def are_certainly_disjoint_predicates.simps
      issubclass_def)

section \<open>Properties of vectorize_module\<close>

lemma vectorize_module_append:
  "vectorize_module bl module applied = (module', None)
   \<Longrightarrow> vectorize_module bl module (applied @ rest) = vectorize_module bl module' rest"
proof (induction applied arbitrary: module)
  case Nil
  then show ?case by simp
next
  case (Cons kc applied)
  obtain k coord where kc: "kc = (k, coord)" by (cases kc)
  show ?case
  proof (cases "tree_map (broadcast bl coord) (nnx_state module k)")
    case (Inl e)
    with Cons.prems show ?thesis by (simp add: kc)
  next
    case (Inr k_state)
    with Cons.prems Cons.IH [of "nnx_update module k_state"] show ?thesis by (simp add: kc)
  qed
qed

text \<open>
  Claim C3, as amended. A call of \<open>vectorize_module\<close> is not atomic, each entry of the
  spec is: when the call raises, the module is in the state that the entries before the
  failing one produced, all of them applied in full, and the failing entry and those after
  it have changed nothing.
\<close>

theorem vectorize_module_failure_prefix:
  "vectorize_module bl module specs = (module', Some e)
   \<Longrightarrow> \<exists>applied k coord rest.
         specs = applied @ (k, coord) # rest
       \<and> vectorize_module bl module applied = (module', None)
       \<and> tree_map (broadcast bl coord) (nnx_state module' k) = Inl e"
proof (induction specs arbitrary: module)
  case Nil
  then show ?case by simp
next
  case (Cons kc specs)
  obtain k coord where kc: "kc = (k, coord)" by (cases kc)
  show ?case
  proof (cases "tree_map (broadcast bl coord) (nnx_state module k)")
    case (Inl e')
    with Cons.prems have "module' = module" "e' = e" by (simp_all add: kc)
    with Inl have "kc # specs = [] @ (k, coord) # specs
       \<and> vectorize_module bl module [] = (module', None)
       \<and> tree_map (broadcast bl coord) (nnx_state module' k) = Inl e"
      by (simp add: kc)
    then show ?thesis by blast
  next
    case (Inr k_state)
    with Cons.prems have "vectorize_module bl (nnx_update module k_state) specs = (module', Some e)"
      by (simp add: kc)
    from Cons.IH [OF this] obtain applied k' coord' rest where
      s: "specs = applied @ (k', coord') # rest"
      and a: "vectorize_module bl (nnx_update module k_state) applied = (module', None)"
      and f: "tree_map (broadcast bl coord') (nnx_state module' k') = Inl e"
      by blast
    have "kc # specs = (kc # applied) @ (k', coord') # rest" using s by simp
    moreover have "vectorize_module bl module (kc # applied) = (module', None)"
      using a Inr by (simp add: kc)
    ultimately show ?thesis using f by blast
  qed
qed

text \<open>
  The claim as stated fails: the first entry is applied to the \<open>Field\<close> variable, then the
  second entry raises on the raw array, and the module is left changed.
\<close>

theorem vectorize_module_partial_update:
  "snd (vectorize_module retarget_field two_variable_module
          [(FStr ''a'', SizedAxis ''batch'' 4), (FStr ''b'', SizedAxis ''batch'' 4)])
     = Some ValueError_not_a_field
   \<and> fst (vectorize_module retarget_field two_variable_module
          [(FStr ''a'', SizedAxis ''batch'' 4), (FStr ''b'', SizedAxis ''batch'' 4)])
     \<noteq> two_variable_module"
  by code_simp

theorem vectorize_module_failure_prefix_witness:
  "vectorize_module retarget_field two_variable_module
          [(FStr ''a'', SizedAxis ''batch'' 4), (FStr ''b'', SizedAxis ''batch'' 4)]
     = (nnx_update two_variable_module
          [([''a''], \<lparr>var_type = PyType ''Param'' [''Variable'', ''object''], var_tag = Some ''a'',
              var_value = [IsField \<lparr>field_coordinate =
                             CartesianProduct [SizedAxis ''batch'' 4, SizedAxis ''x'' 2],
                           field_data = 0\<rparr>]\<rparr>)],
        Some ValueError_not_a_field)
   \<and> (\<exists>applied k coord rest.
         [(FStr ''a'', SizedAxis ''batch'' 4), (FStr ''b'', SizedAxis ''batch'' 4)]
           = applied @ (k, coord) # rest
       \<and> vectorize_module retarget_field two_variable_module applied
           = (nnx_update two_variable_module
                [([''a''], \<lparr>var_type = PyType ''Param'' [''Variable'', ''object''],
                    var_tag = Some ''a'',
                    var_value = [IsField \<lparr>field_coordinate =
                                   CartesianProduct [SizedAxis ''batch'' 4, SizedAxis ''x'' 2],
                                 field_data = 0\<rparr>]\<rparr>)], None))"
proof -
  let ?m' = "nnx_update two_variable_module
          [([''a''], \<lparr>var_type = PyType ''Param'' [''Variable'', ''object''], var_tag = Some ''a'',
              var_value = [IsField \<lparr>field_coordinate =
                             CartesianProduct [SizedAxis ''batch'' 4, SizedAxis ''x'' 2],
                           field_data = 0::nat\<rparr>]\<rparr>)]"
  have e: "vectorize_module retarget_field two_variable_module
          [(FStr ''a'', SizedAxis ''batch'' 4), (FStr ''b'', SizedAxis ''batch'' 4)]
     = (?m', Some ValueError_not_a_field)"
    by code_simp
  from vectorize_module_failure_prefix [OF e] e show ?thesis by blast
qed

section \<open>Properties of tag_module_state and untag_module_state\<close>

text \<open>
  With a non-empty \<open>vectorized_axes\<close> an axis of the coordinate that no coordinate of
  \<open>vectorized_axes\<close> has raises the \<open>ValueError\<close> before the module is read.
\<close>

lemma foldl_union: "foldl (\<union>) s ss = s \<union> \<Union> (set ss)"
  by (induction ss arbitrary: s) auto

lemma reduce_or_nonempty:
  "ss \<noteq> [] \<Longrightarrow> reduce_or ss = Inr (\<Union> (set ss))"
  by (cases ss) (auto simp: foldl_union)

lemma retag_validation_nonempty:
  assumes "vectorized_axes \<noteq> []"
    and "\<exists>ax \<in> set (axes coordinate). \<forall>v \<in> snd ` set vectorized_axes. ax \<notin> set (axes v)"
  shows "untag_module_state cx_untag module coordinate vectorized_axes
           = (module, Some ValueError_axis_not_present)"
    and "tag_module_state cx_tag module coordinate vectorized_axes
           = (module, Some ValueError_axis_not_present)"
  using assms by (auto simp: untag_module_state_def tag_module_state_def reduce_or_nonempty)

text \<open>
  Claim C10. The claim is that both functions raise a \<open>ValueError\<close> whenever the
  coordinate has an axis that no coordinate of \<open>vectorized_axes\<close> has. With an empty
  \<open>vectorized_axes\<close> the \<open>reduce\<close> without an initial value raises a \<open>TypeError\<close>
  first. The module is unchanged there too.
\<close>

theorem tag_module_state_empty_vectorized_axes:
  "untag_module_state cx_untag module (SizedAxis ''x'' 2) []
     = (module, Some TypeError_reduce_of_empty_iterable)
   \<and> tag_module_state cx_tag module (SizedAxis ''x'' 2) []
     = (module, Some TypeError_reduce_of_empty_iterable)
   \<and> \<not> is_ValueError TypeError_reduce_of_empty_iterable"
  by (simp add: untag_module_state_def tag_module_state_def)

section \<open>Properties of consolidate_coordinates\<close>

lemma consolidate_selected:
  "consolidate_coordinates (SelectedAxis p i # cs) =
     (if 0 < ndim p \<and> take (ndim p) (SelectedAxis p i # cs) = complete_run p
      then p # consolidate_coordinates (drop (ndim p) (SelectedAxis p i # cs))
      else SelectedAxis p i # consolidate_coordinates cs)"
  by (simp add: consolidate_coordinates.simps(2))

lemma consolidate_other:
  "\<forall>p i. c \<noteq> SelectedAxis p i \<Longrightarrow>
   consolidate_coordinates (c # cs) = c # consolidate_coordinates cs"
  by (cases c) (simp_all add: consolidate_coordinates.simps(2))

lemma length_complete_run [simp]: "length (complete_run p) = ndim p"
  by (simp add: complete_run_def)

lemma complete_run_nth: "i < ndim p \<Longrightarrow> complete_run p ! i = SelectedAxis p i"
  by (simp add: complete_run_def)

lemma run_prefix_append:
  assumes ys: "ys = [] \<or> \<not> continues_run (hd ys)" and xs: "xs \<noteq> []"
  shows "(take (ndim p) (xs @ ys) = complete_run p) = (take (ndim p) xs = complete_run p)"
proof (cases "ndim p \<le> length xs")
  case True
  then show ?thesis by simp
next
  case False
  then have n: "length xs < ndim p" by simp
  have r: "take (ndim p) xs \<noteq> complete_run p"
  proof
    assume "take (ndim p) xs = complete_run p"
    then have "length (take (ndim p) xs) = ndim p" by simp
    with n show False by simp
  qed
  have l: "take (ndim p) (xs @ ys) \<noteq> complete_run p"
  proof
    assume e: "take (ndim p) (xs @ ys) = complete_run p"
    show False
    proof (cases ys)
      case Nil
      with e r show False by simp
    next
      case (Cons y ys')
      have "take (ndim p) (xs @ ys) ! length xs = y"
        using n Cons by (simp add: nth_append)
      then have "y = SelectedAxis p (length xs)"
        using e n by (simp add: complete_run_nth)
      moreover obtain k where "length xs = Suc k" using xs by (cases xs) auto
      ultimately have "continues_run y" by simp
      with ys Cons show False by simp
    qed
  qed
  from l r show ?thesis by simp
qed

lemma consolidate_append:
  assumes "ys = [] \<or> \<not> continues_run (hd ys)"
  shows "consolidate_coordinates (xs @ ys) = consolidate_coordinates xs @ consolidate_coordinates ys"
proof (induction "length xs" arbitrary: xs rule: less_induct)
  case less
  show ?case
  proof (cases xs)
    case Nil
    then show ?thesis by simp
  next
    case (Cons c cs)
    have IH: "\<And>zs. length zs < length xs \<Longrightarrow>
        consolidate_coordinates (zs @ ys) = consolidate_coordinates zs @ consolidate_coordinates ys"
      using less by blast
    show ?thesis
    proof (cases "\<exists>p i. c = SelectedAxis p i")
      case False
      then have "\<forall>p i. c \<noteq> SelectedAxis p i" by blast
      then show ?thesis using IH [of cs] Cons by (simp add: consolidate_other)
    next
      case True
      then obtain p i where c: "c = SelectedAxis p i" by blast
      have eq: "(take (ndim p) (xs @ ys) = complete_run p) = (take (ndim p) xs = complete_run p)"
        using run_prefix_append [OF assms, of xs p] Cons by simp
      show ?thesis
      proof (cases "0 < ndim p \<and> take (ndim p) xs = complete_run p")
        case False
        then show ?thesis using IH [of cs] Cons c eq by (auto simp: consolidate_selected)
      next
        case True
        then have "length (take (ndim p) xs) = ndim p" by simp
        then have le: "ndim p \<le> length xs" by simp
        have "length (drop (ndim p) xs) < length xs" using True Cons by simp
        from IH [OF this] have
          "consolidate_coordinates (drop (ndim p) xs @ ys)
             = consolidate_coordinates (drop (ndim p) xs) @ consolidate_coordinates ys" .
        moreover have "drop (ndim p) (xs @ ys) = drop (ndim p) xs @ ys" using le by simp
        moreover have "consolidate_coordinates (xs @ ys) = p # consolidate_coordinates (drop (ndim p) (xs @ ys))"
          using True eq Cons c consolidate_selected [of p i "cs @ ys"] by simp
        moreover have "consolidate_coordinates xs = p # consolidate_coordinates (drop (ndim p) xs)"
          using True Cons c consolidate_selected [of p i cs] by simp
        ultimately show ?thesis by simp
      qed
    qed
  qed
qed

lemma consolidate_complete_run:
  assumes "0 < ndim p"
  shows "consolidate_coordinates (complete_run p @ post) = p # consolidate_coordinates post"
proof -
  obtain r where r: "complete_run p = SelectedAxis p 0 # r"
    using assms by (simp add: complete_run_def upt_conv_Cons)
  have "take (ndim p) (complete_run p @ post) = complete_run p" by simp
  moreover have "drop (ndim p) (complete_run p @ post) = post" by simp
  ultimately show ?thesis
    using assms consolidate_selected [of p 0 "r @ post"] r by simp
qed

lemma consolidate_no_run:
  assumes "\<forall>pre p post. 0 < ndim p \<longrightarrow> xs \<noteq> pre @ complete_run p @ post"
  shows "consolidate_coordinates xs = xs"
  using assms
proof (induction xs)
  case Nil
  then show ?case by simp
next
  case (Cons c cs)
  have tl: "\<forall>pre p post. 0 < ndim p \<longrightarrow> cs \<noteq> pre @ complete_run p @ post"
  proof (intro allI impI notI)
    fix pre p post assume "0 < ndim p" "cs = pre @ complete_run p @ post"
    then have "c # cs = (c # pre) @ complete_run p @ post" by simp
    with Cons.prems \<open>0 < ndim p\<close> show False by blast
  qed
  show ?case
  proof (cases "\<exists>p i. c = SelectedAxis p i")
    case False
    then have "\<forall>p i. c \<noteq> SelectedAxis p i" by blast
    then show ?thesis using Cons.IH [OF tl] by (simp add: consolidate_other)
  next
    case True
    then obtain p i where c: "c = SelectedAxis p i" by blast
    have "\<not> (0 < ndim p \<and> take (ndim p) (c # cs) = complete_run p)"
    proof
      assume a: "0 < ndim p \<and> take (ndim p) (c # cs) = complete_run p"
      then have "c # cs = [] @ complete_run p @ drop (ndim p) (c # cs)"
        by (metis append_Nil append_take_drop_id)
      with Cons.prems a show False by blast
    qed
    then show ?thesis using Cons.IH [OF tl] c by (simp add: consolidate_selected)
  qed
qed

text \<open>
  Claim C1. Wherever the list holds the complete run of a parent (its \<open>SelectedAxis\<close>
  entries with the indices \<open>0, ..., n - 1\<close> in this order), the run is replaced by the
  parent and the rest is consolidated on its own; an entry that is no \<open>SelectedAxis\<close>
  passes through unchanged and separates what is before it from what is after it; and a
  list that holds no complete run (wrong order, a gap filled by another axis, an
  incomplete subset of the axes) is returned as given. For the product \<open>P\<close> of \<open>x\<close> and
  \<open>y\<close>, the pair of its selections gives \<open>[P]\<close>, and the pair in reversed order is
  returned unchanged.
\<close>

theorem consolidate_coordinates_runs:
  "(\<forall>pre p post. 0 < ndim p \<longrightarrow>
       consolidate_coordinates (pre @ complete_run p @ post)
         = consolidate_coordinates pre @ p # consolidate_coordinates post)
   \<and> (\<forall>pre c post. (\<forall>q i. c \<noteq> SelectedAxis q i) \<longrightarrow>
       consolidate_coordinates (pre @ c # post)
         = consolidate_coordinates pre @ c # consolidate_coordinates post)
   \<and> (\<forall>xs. (\<forall>pre q post. 0 < ndim q \<longrightarrow> xs \<noteq> pre @ complete_run q @ post) \<longrightarrow>
       consolidate_coordinates xs = xs)
   \<and> consolidate_coordinates [SelectedAxis PRODUCT_XY 0, SelectedAxis PRODUCT_XY 1] = [PRODUCT_XY]
   \<and> consolidate_coordinates [SelectedAxis PRODUCT_XY 1, SelectedAxis PRODUCT_XY 0]
       = [SelectedAxis PRODUCT_XY 1, SelectedAxis PRODUCT_XY 0]"
proof (intro conjI allI impI)
  fix pre p post assume p: "0 < ndim p"
  then obtain r where r: "complete_run p = SelectedAxis p 0 # r"
    by (auto simp: complete_run_def upt_conv_Cons)
  have "complete_run p @ post = [] \<or> \<not> continues_run (hd (complete_run p @ post))"
    by (simp add: r)
  from consolidate_append [OF this, of pre]
  show "consolidate_coordinates (pre @ complete_run p @ post)
         = consolidate_coordinates pre @ p # consolidate_coordinates post"
    by (simp add: consolidate_complete_run [OF p])
next
  fix pre c post assume c: "\<forall>q i. c \<noteq> SelectedAxis q i"
  then have "\<not> continues_run c" by (cases c) auto
  then have "c # post = [] \<or> \<not> continues_run (hd (c # post))" by simp
  from consolidate_append [OF this, of pre]
  show "consolidate_coordinates (pre @ c # post)
         = consolidate_coordinates pre @ c # consolidate_coordinates post"
    by (simp add: consolidate_other [OF c])
next
  fix xs assume "\<forall>pre q post. 0 < ndim q \<longrightarrow> xs \<noteq> pre @ complete_run q @ post"
  then show "consolidate_coordinates xs = xs" by (rule consolidate_no_run)
next
  show "consolidate_coordinates [SelectedAxis PRODUCT_XY 0, SelectedAxis PRODUCT_XY 1] = [PRODUCT_XY]"
    by code_simp
next
  show "consolidate_coordinates [SelectedAxis PRODUCT_XY 1, SelectedAxis PRODUCT_XY 0]
       = [SelectedAxis PRODUCT_XY 1, SelectedAxis PRODUCT_XY 0]"
    by code_simp
qed

lemma ndim_PRODUCT_XY: "ndim PRODUCT_XY = 2"
  by (simp add: ndim_def PRODUCT_XY_def)

lemma complete_run_PRODUCT_XY:
  "complete_run PRODUCT_XY = [SelectedAxis PRODUCT_XY 0, SelectedAxis PRODUCT_XY 1]"
  by code_simp

theorem consolidate_coordinates_runs_witness:
  "consolidate_coordinates
       [SizedAxis ''z'' 4, SelectedAxis PRODUCT_XY 0, SelectedAxis PRODUCT_XY 1, SizedAxis ''w'' 5]
     = [SizedAxis ''z'' 4, PRODUCT_XY, SizedAxis ''w'' 5]
   \<and> consolidate_coordinates [SelectedAxis PRODUCT_XY 0, SizedAxis ''z'' 4, SelectedAxis PRODUCT_XY 1]
     = [SelectedAxis PRODUCT_XY 0, SizedAxis ''z'' 4, SelectedAxis PRODUCT_XY 1]
   \<and> consolidate_coordinates [SelectedAxis PRODUCT_XY 0] = [SelectedAxis PRODUCT_XY 0]"
proof -
  note T = consolidate_coordinates_runs
  have A: "\<forall>pre p post. 0 < ndim p \<longrightarrow>
       consolidate_coordinates (pre @ complete_run p @ post)
         = consolidate_coordinates pre @ p # consolidate_coordinates post"
    using T by (rule conjunct1)
  have B: "\<forall>pre c post. (\<forall>q i. c \<noteq> SelectedAxis q i) \<longrightarrow>
       consolidate_coordinates (pre @ c # post)
         = consolidate_coordinates pre @ c # consolidate_coordinates post"
    using T by (rule conjunct1 [OF conjunct2])
  have C: "\<forall>xs. (\<forall>pre q post. 0 < ndim q \<longrightarrow> xs \<noteq> pre @ complete_run q @ post) \<longrightarrow>
       consolidate_coordinates xs = xs"
    using T by (rule conjunct1 [OF conjunct2 [OF conjunct2]])
  have a: "consolidate_coordinates ([SizedAxis ''z'' 4] @ complete_run PRODUCT_XY @ [SizedAxis ''w'' 5])
         = consolidate_coordinates [SizedAxis ''z'' 4] @ PRODUCT_XY # consolidate_coordinates [SizedAxis ''w'' 5]"
    using A [rule_format, where p = PRODUCT_XY and pre = "[SizedAxis ''z'' 4]"
                 and post = "[SizedAxis ''w'' 5]"] ndim_PRODUCT_XY by simp
  have 1: "consolidate_coordinates
       [SizedAxis ''z'' 4, SelectedAxis PRODUCT_XY 0, SelectedAxis PRODUCT_XY 1, SizedAxis ''w'' 5]
     = [SizedAxis ''z'' 4, PRODUCT_XY, SizedAxis ''w'' 5]"
    using a by (simp add: complete_run_PRODUCT_XY consolidate_other)
  have b: "consolidate_coordinates ([SelectedAxis PRODUCT_XY 0] @ SizedAxis ''z'' 4 # [SelectedAxis PRODUCT_XY 1])
         = consolidate_coordinates [SelectedAxis PRODUCT_XY 0] @ SizedAxis ''z'' 4
             # consolidate_coordinates [SelectedAxis PRODUCT_XY 1]"
    using B [rule_format, where c = "SizedAxis ''z'' 4" and pre = "[SelectedAxis PRODUCT_XY 0]"
                 and post = "[SelectedAxis PRODUCT_XY 1]"] by simp
  have no_run: "\<forall>pre q post. 0 < ndim q \<longrightarrow> [SelectedAxis PRODUCT_XY 0] \<noteq> pre @ complete_run q @ post"
  proof (intro allI impI notI)
    fix pre q post
    assume q: "0 < ndim q" and e: "[SelectedAxis PRODUCT_XY 0] = pre @ complete_run q @ post"
    from q obtain r where r: "complete_run q = SelectedAxis q 0 # r"
      by (auto simp: complete_run_def upt_conv_Cons)
    from e r have "pre = []" by (cases pre) auto
    with e r have "q = PRODUCT_XY" "r = []" by auto
    with r have "length (complete_run PRODUCT_XY) = 1" by simp
    then show False by (simp add: ndim_PRODUCT_XY)
  qed
  have 3: "consolidate_coordinates [SelectedAxis PRODUCT_XY 0] = [SelectedAxis PRODUCT_XY 0]"
    using C no_run by blast
  have "consolidate_coordinates [SelectedAxis PRODUCT_XY 1] = [SelectedAxis PRODUCT_XY 1]"
    by code_simp
  with b 3 have 2: "consolidate_coordinates [SelectedAxis PRODUCT_XY 0, SizedAxis ''z'' 4, SelectedAxis PRODUCT_XY 1]
     = [SelectedAxis PRODUCT_XY 0, SizedAxis ''z'' 4, SelectedAxis PRODUCT_XY 1]"
    by simp
  from 1 2 3 show ?thesis by blast
qed

lemma consolidate_coordinates_test_cases:
  "consolidate_coordinates [] = []"
  "consolidate_coordinates [SizedAxis ''x'' 2] = [SizedAxis ''x'' 2]"
  "consolidate_coordinates [SelectedAxis (SizedAxis ''x'' 2) 0] = [SizedAxis ''x'' 2]"
  "consolidate_coordinates [SizedAxis ''x'' 2, LabeledAxis ''y'' [0, 1, 2]]
     = [SizedAxis ''x'' 2, LabeledAxis ''y'' [0, 1, 2]]"
  "consolidate_coordinates [SelectedAxis PRODUCT_XY 0, SelectedAxis PRODUCT_XY 1, SizedAxis ''z'' 4]
     = [PRODUCT_XY, SizedAxis ''z'' 4]"
  "consolidate_coordinates [SizedAxis ''z'' 4, SelectedAxis PRODUCT_XY 0, SelectedAxis PRODUCT_XY 1]
     = [SizedAxis ''z'' 4, PRODUCT_XY]"
  "consolidate_coordinates [SelectedAxis PRODUCT_XY 0, SelectedAxis (SizedAxis ''x'' 4) 0]
     = [SelectedAxis PRODUCT_XY 0, SizedAxis ''x'' 4]"
  "consolidate_coordinates [SelectedAxis (SizedAxis ''x'' 4) 0, SelectedAxis PRODUCT_XY 0]
     = [SizedAxis ''x'' 4, SelectedAxis PRODUCT_XY 0]"
  by code_simp+

section \<open>Properties of compose_coordinates\<close>

text \<open>The four cases of \<open>test_compose_coordinates\<close>.\<close>

lemma compose_coordinates_test_cases:
  "compose_coordinates [SelectedAxis PRODUCT_XY 0, SelectedAxis PRODUCT_XY 1] = PRODUCT_XY"
  "compose_coordinates [SelectedAxis (SizedAxis ''x'' 4) 0, SizedAxis ''z'' 7]
     = CartesianProduct [SizedAxis ''x'' 4, SizedAxis ''z'' 7]"
  "compose_coordinates [SizedAxis ''x'' 7, CartesianProduct [SizedAxis ''y'' 7, SizedAxis ''z'' 4]]
     = CartesianProduct [SizedAxis ''x'' 7, SizedAxis ''y'' 7, SizedAxis ''z'' 4]"
  "compose_coordinates [SelectedAxis PRODUCT_XY 0,
                        CartesianProduct [SelectedAxis PRODUCT_XY 1, SizedAxis ''z'' 4]]
     = CartesianProduct [SizedAxis ''x'' 2, SizedAxis ''y'' 3, SizedAxis ''z'' 4]"
  by code_simp+







lemma complete_run_Cons:
  "0 < ndim p \<Longrightarrow> complete_run p = SelectedAxis p 0 # map (SelectedAxis p) [1..<ndim p]"
  by (simp add: complete_run_def upt_conv_Cons)


lemma run_at_not_selected:
  "\<forall>p i. c \<noteq> SelectedAxis p i \<Longrightarrow> \<not> run_at q (c # cs)"
proof
  assume c: "\<forall>p i. c \<noteq> SelectedAxis p i" and r: "run_at q (c # cs)"
  from r have n: "0 < ndim q" and t: "take (ndim q) (c # cs) = complete_run q"
    by (simp_all add: run_at_def)
  from n obtain m where m: "ndim q = Suc m" by (cases "ndim q") auto
  from t have "c = SelectedAxis q 0" using complete_run_Cons [OF n] by (simp add: m)
  with c show False by blast
qed


lemma normal_Nil [simp]: "normal [] = []"
  by (simp add: normal_def)





























section \<open>Properties of the rebuild of a named array\<close>

lemma filter_named_drop:
  "\<forall>d \<in> set (take k ds). d = None \<Longrightarrow>
   filter (\<lambda>d. d \<noteq> None) (drop k ds) = filter (\<lambda>d. d \<noteq> (None :: string option)) ds"
proof -
  assume a: "\<forall>d \<in> set (take k ds). d = None"
  have "filter (\<lambda>d. d \<noteq> None) ds
        = filter (\<lambda>d. d \<noteq> None) (take k ds) @ filter (\<lambda>d. d \<noteq> None) (drop k ds)"
    by (metis append_take_drop_id filter_append)
  moreover have "filter (\<lambda>d. d \<noteq> None) (take k ds) = []"
    using a by (simp add: filter_empty_conv)
  ultimately show ?thesis by simp
qed

text \<open>
  Claim C9. When the leaf has fewer axes than there were dims, the front-most dims up to
  the rank deficit are dropped if every one of them is positional, and the rebuild fails
  with the error that lists them if one of them is named. Whatever the rank of the leaf,
  a rebuild that succeeds keeps every named dim, in order.
\<close>

theorem tree_unflatten_trims_positional_only:
  "(length (shape leaf) < length ds \<longrightarrow>
      ((\<forall>d \<in> set (take (length ds - length (shape leaf)) ds). d = None) \<longrightarrow>
          tree_unflatten (ds, ns) leaf
            = Inr \<lparr>data = leaf, dims = drop (length ds - length (shape leaf)) ds\<rparr>)
    \<and> ((\<exists>d \<in> set (take (length ds - length (shape leaf)) ds). d \<noteq> None) \<longrightarrow>
          tree_unflatten (ds, ns) leaf
            = Inl (CannotTrimNamedDimensions (take (length ds - length (shape leaf)) ds))))
   \<and> (\<forall>a. tree_unflatten (ds, ns) leaf = Inr a \<longrightarrow>
          filter (\<lambda>d. d \<noteq> None) (dims a) = filter (\<lambda>d. d \<noteq> None) ds)"
proof (intro conjI impI allI)
  assume "length (shape leaf) < length ds"
    and "\<forall>d \<in> set (take (length ds - length (shape leaf)) ds). d = None"
  then show "tree_unflatten (ds, ns) leaf
            = Inr \<lparr>data = leaf, dims = drop (length ds - length (shape leaf)) ds\<rparr>"
    by (simp add: tree_unflatten_def Let_def list_ex_iff)
next
  assume "length (shape leaf) < length ds"
    and "\<exists>d \<in> set (take (length ds - length (shape leaf)) ds). d \<noteq> None"
  then show "tree_unflatten (ds, ns) leaf
            = Inl (CannotTrimNamedDimensions (take (length ds - length (shape leaf)) ds))"
    by (simp add: tree_unflatten_def Let_def list_ex_iff)
next
  fix a assume u: "tree_unflatten (ds, ns) leaf = Inr a"
  consider (eq) "length (shape leaf) = length ds"
    | (gt) "length (shape leaf) > length ds"
    | (lt) "length (shape leaf) < length ds" by linarith
  then show "filter (\<lambda>d. d \<noteq> None) (dims a) = filter (\<lambda>d. d \<noteq> None) ds"
  proof cases
    case eq
    with u show ?thesis by (auto simp: tree_unflatten_def Let_def split: if_splits)
  next
    case gt
    with u show ?thesis by (auto simp: tree_unflatten_def Let_def split: if_splits)
  next
    case lt
    with u have "\<forall>d \<in> set (take (length ds - length (shape leaf)) ds). d = None"
      and "dims a = drop (length ds - length (shape leaf)) ds"
      by (auto simp: tree_unflatten_def Let_def list_ex_iff split: if_splits)
    then show ?thesis using filter_named_drop by simp
  qed
qed

theorem tree_unflatten_trims_positional_only_witness:
  "tree_unflatten (snd (tree_flatten \<lparr>data = \<lparr>shape = [2, 5], elems = [0, 1, 2, 3, 4, 5, 6, 7, 8, 9]\<rparr>,
                                 dims = [None, Some ''y'']\<rparr>))
       \<lparr>shape = [5], elems = [0, 1, 2, 3, 4]\<rparr>
     = Inr \<lparr>data = \<lparr>shape = [5], elems = [0, 1, 2, 3, 4]\<rparr>, dims = [Some ''y'']\<rparr>
   \<and> tree_unflatten (snd (tree_flatten \<lparr>data = \<lparr>shape = [2, 5], elems = [0, 1, 2, 3, 4, 5, 6, 7, 8, 9]\<rparr>,
                                   dims = [Some ''x'', Some ''y'']\<rparr>))
       \<lparr>shape = [5], elems = [0, 1, 2, 3, 4]\<rparr>
     = Inl (CannotTrimNamedDimensions [Some ''x''])
   \<and> filter (\<lambda>d. d \<noteq> None) [Some ''y''] = filter (\<lambda>d. d \<noteq> None) [None, Some ''y'']"
proof -
  let ?leaf = "\<lparr>shape = [5], elems = [0, 1, 2, 3, 4]\<rparr>"
  let ?d = "\<lparr>shape = [2, 5], elems = [0, 1, 2, 3, 4, 5, 6, 7, 8, 9]\<rparr>"
  have f1: "tree_flatten \<lparr>data = ?d, dims = [None, Some ''y'']\<rparr>
              = (?d, ([None, Some ''y''], [(''y'', 5)]))"
    by (simp add: tree_flatten_def named_shape_def named_shape_of_def)
  have f2: "tree_flatten \<lparr>data = ?d, dims = [Some ''x'', Some ''y'']\<rparr>
              = (?d, ([Some ''x'', Some ''y''], [(''x'', 2), (''y'', 5)]))"
    by (simp add: tree_flatten_def named_shape_def named_shape_of_def)
  note T1 = tree_unflatten_trims_positional_only
              [where leaf = ?leaf and ds = "[None, Some ''y'']" and ns = "[(''y'', 5)]"]
  note T2 = tree_unflatten_trims_positional_only
              [where leaf = ?leaf and ds = "[Some ''x'', Some ''y'']" and ns = "[(''x'', 2), (''y'', 5)]"]
  have 1: "tree_unflatten ([None, Some ''y''], [(''y'', 5)]) ?leaf
            = Inr \<lparr>data = ?leaf, dims = [Some ''y'']\<rparr>"
    using T1 by simp
  have 2: "tree_unflatten ([Some ''x'', Some ''y''], [(''x'', 2), (''y'', 5)]) ?leaf
            = Inl (CannotTrimNamedDimensions [Some ''x''])"
    using T2 by simp
  have 3: "filter (\<lambda>d. d \<noteq> None) (dims \<lparr>data = ?leaf, dims = [Some ''y'']\<rparr>)
             = filter (\<lambda>d. d \<noteq> None) [None, Some ''y'']"
    using T1 1 by blast
  from 1 2 3 f1 f2 show ?thesis by simp
qed

lemma tree_unflatten_test_cases:
  "tree_unflatten (snd (tree_flatten \<lparr>data = \<lparr>shape = [2, 5], elems = [0, 1, 2, 3, 4, 5, 6, 7, 8, 9]\<rparr>,
                                 dims = [Some ''x'', Some ''y'']\<rparr>))
       \<lparr>shape = [2, 5], elems = [0, 1, 2, 3, 4, 5, 6, 7, 8, 9]\<rparr>
     = Inr \<lparr>data = \<lparr>shape = [2, 5], elems = [0, 1, 2, 3, 4, 5, 6, 7, 8, 9]\<rparr>,
            dims = [Some ''x'', Some ''y'']\<rparr>"
  "tree_unflatten (snd (tree_flatten \<lparr>data = \<lparr>shape = [2, 5], elems = [0, 1, 2, 3, 4, 5, 6, 7, 8, 9]\<rparr>,
                                 dims = [Some ''x'', Some ''y'']\<rparr>))
       \<lparr>shape = [2, 3], elems = [0, 1, 2, 5, 6, 7]\<rparr>
     = Inl (NamedShapeMismatch [(''x'', 2), (''y'', 3)] [(''x'', 2), (''y'', 5)])"
  "tree_unflatten (snd (tree_flatten \<lparr>data = \<lparr>shape = [2, 5], elems = [0, 1, 2, 3, 4, 5, 6, 7, 8, 9]\<rparr>,
                                 dims = [Some ''x'', Some ''y'']\<rparr>))
       \<lparr>shape = [1, 2, 5], elems = [0, 1, 2, 3, 4, 5, 6, 7, 8, 9]\<rparr>
     = Inr \<lparr>data = \<lparr>shape = [1, 2, 5], elems = [0, 1, 2, 3, 4, 5, 6, 7, 8, 9]\<rparr>,
            dims = [None, Some ''x'', Some ''y'']\<rparr>"
  by (simp_all add: tree_unflatten_def tree_flatten_def named_shape_def named_shape_of_def)

end
